theory Spec2Isabelle
  imports Main "HOL-Library.AList"
begin

section \<open>JavaScript values used by the build script\<close>

text \<open>
  The manifests the build script writes are plain JavaScript objects passed to
  \<^verbatim>\<open>JSON.stringify\<close>. An object is kept as the list of its own enumerable
  properties in insertion order; \<open>map_of\<close> looks a property up.
\<close>

datatype json =
    JNull
  | JBool bool
  | JNumber int
  | JString string
  | JArray "json list"
  | JObject "(string \<times> json) list"

type_synonym 'v js_object = "(string \<times> 'v) list"

text \<open>
  The assignment \<^verbatim>\<open>obj[key] = value\<close> on an object created by the literal
  \<^verbatim>\<open>{}\<close>. An existing own property is overwritten in place, a new one is appended.
  The key \<^verbatim>\<open>__proto__\<close> is the one exception: the literal's prototype is
  \<^verbatim>\<open>Object.prototype\<close>, whose accessor \<^verbatim>\<open>__proto__\<close> receives the
  assignment, so no own property is created (a string value is ignored by the setter, an
  object value becomes the prototype, which \<^verbatim>\<open>JSON.stringify\<close> and
  \<^verbatim>\<open>Object.keys\<close> do not read).
\<close>

definition assign :: "'v js_object \<Rightarrow> string \<Rightarrow> 'v \<Rightarrow> 'v js_object" where
  "assign obj key v = (if key = ''__proto__'' then obj else AList.update key v obj)"

definition field :: "string \<Rightarrow> json \<Rightarrow> json option" where
  "field key j = (case j of JObject props \<Rightarrow> map_of props key | _ \<Rightarrow> None)"

section \<open>build.ts: configuration and data\<close>

record config =
  name :: string
  version :: string
  description :: string
  author :: "string option"
  license :: string
  repository :: string
  keywords' :: "string list"
  includeDevDependencies :: bool
  includeDependencies :: bool
  bundledDependencies :: "string list"
  entryFile :: string
  srcDir :: string
  distDir :: string
  target :: string
  extraFiles :: "string list"

text \<open>
  The constant \<^verbatim>\<open>CONFIG\<close> of build.ts (lines 17 to 42). \<open>author\<close> is optional
  here because \<^verbatim>\<open>main\<close> may overwrite it with the \<^verbatim>\<open>name\<close> of an author
  object that has none.
\<close>

definition CONFIG :: config where
  "CONFIG = \<lparr>
     name = ''hono-openapi'',
     version = ''1.2.0'',
     description = ''OpenAPI schema generator for Hono'',
     author = Some ''Matheus Couto'',
     license = ''MIT'',
     repository = '''',
     keywords' = [''hono'', ''openapi'', ''schema''],
     includeDevDependencies = False,
     includeDependencies = True,
     bundledDependencies = [],
     entryFile = ''index.ts'',
     srcDir = ''src'',
     distDir = ''dist'',
     target = ''node'',
     extraFiles = [''LICENSE'', ''README.md'']
   \<rparr>"

record BuildTarget =
  entryPath :: string
  outDir :: string
  exportKey :: string
  relDir :: string

text \<open>
  The root package.json as \<^verbatim>\<open>JSON.parse\<close> returns it. A
  \<^verbatim>\<open>Record<string, string>\<close> is the list of its own properties in the order of
  \<^verbatim>\<open>Object.keys\<close>. The four fields that share a name with a field of
  \<open>config\<close> carry the prefix \<open>pkg_\<close>. The author of a package.json is a string
  or an object with an optional name.
\<close>

datatype author_field = AuthorString string | AuthorObject "string option"

record RootPackageJson =
  pkg_name :: "string option"
  pkg_version :: "string option"
  pkg_description :: "string option"
  pkg_author :: "author_field option"
  dependencies :: "string js_object option"
  devDependencies :: "string js_object option"
  peerDependencies :: "string js_object option"
  peerDependenciesMeta :: "json option"
  engines :: "string js_object option"
  bugs :: "json option"
  homepage :: "string option"

text \<open>JavaScript truthiness, as the guards \<^verbatim>\<open>x && {...}\<close> and \<^verbatim>\<open>if (x)\<close> read it.\<close>

fun truthy :: "json \<Rightarrow> bool" where
  "truthy JNull = False"
| "truthy (JBool b) = b"
| "truthy (JNumber n) = (n \<noteq> 0)"
| "truthy (JString s) = (s \<noteq> [])"
| "truthy (JArray xs) = True"
| "truthy (JObject props) = True"

definition stringObject :: "string js_object \<Rightarrow> json" where
  "stringObject obj = JObject (map (\<lambda>(k, v). (k, JString v)) obj)"

section \<open>build.ts: paths\<close>

text \<open>
  \<^verbatim>\<open>node:path\<close> on the relative, normalised POSIX paths that a glob scan yields:
  \<open>dirname\<close> is the part before the last slash (\<open>.\<close> when there is none),
  \<open>basename\<close> the part after it, and \<open>path_join\<close> drops a \<open>.\<close> segment.
\<close>

definition basename :: "string \<Rightarrow> string" where
  "basename p = rev (takeWhile (\<lambda>c. c \<noteq> CHR ''/'') (rev p))"

definition dirname :: "string \<Rightarrow> string" where
  "dirname p =
     (let r = dropWhile (\<lambda>c. c \<noteq> CHR ''/'') (rev p) in
      if r = [] then ''.''
      else let d = rev (dropWhile (\<lambda>c. c = CHR ''/'') r) in
           if d = [] then ''/'' else d)"

definition path_join :: "string \<Rightarrow> string \<Rightarrow> string" where
  "path_join a b = (if b = ''.'' then a else a @ ''/'' @ b)"

definition endsWith :: "string \<Rightarrow> string \<Rightarrow> bool" where
  "endsWith s suffix = (length suffix \<le> length s \<and> drop (length s - length suffix) s = suffix)"

fun includes_str :: "string \<Rightarrow> string \<Rightarrow> bool" where
  "includes_str [] sub = (sub = [])"
| "includes_str (c # cs) sub = (take (length sub) (c # cs) = sub \<or> includes_str cs sub)"

text \<open>\<^verbatim>\<open>path.basename(p, ext)\<close>: the extension is removed from a longer base name.\<close>

definition basename_ext :: "string \<Rightarrow> string \<Rightarrow> string" where
  "basename_ext p ext =
     (let b = basename p in
      if endsWith b ext \<and> b \<noteq> ext then take (length b - length ext) b else b)"

section \<open>build.ts: effects\<close>

text \<open>
  Every call that touches the file system, the bundler or a child process is an event of
  the run, recorded in order. A call may throw (\<open>rejects\<close>); the thrown error is a
  value. Console output other than the final error report is not recorded.
\<close>

datatype payload = Text string | Stringified json

record build_options =
  entrypoints :: "string list"
  outdir :: string
  bundle_target :: string
  format :: string
  minify :: bool
  splitting :: bool
  external :: "string list"

datatype call =
    Rm string
  | Mkdir string
  | CopyFile string string
  | BunWrite string payload
  | BunBuild build_options
  | Rename string string
  | GlobScan string string
  | SpawnTsc "string list"

datatype build_error =
    NoEntrypoint
  | BuildFailure string
  | NoTypeScriptFiles
  | DeclarationFailure
  | Rejected call

datatype event = Did call | ConsoleError build_error | ProcessExit nat

text \<open>
  What the run reads from outside: the parsed root package.json (\<open>None\<close> when reading or
  parsing fails), which files \<^verbatim>\<open>access\<close> finds, the regular files below the
  source directory as relative paths with \<open>/\<close> between the components, which of them
  the scan options of \<^verbatim>\<open>Bun.Glob\<close> admit (hidden entries, symbolic links),
  which calls throw, whether the bundler reports success, and the exit code of the compiler.
\<close>

record world =
  rootPackage :: "RootPackageJson option"
  accessible :: "string \<Rightarrow> bool"
  sourceTree :: "string list"
  scanAdmits :: "string \<Rightarrow> bool"
  rejects :: "call \<Rightarrow> bool"
  buildSucceeds :: "build_options \<Rightarrow> bool"
  tscExit :: "string list \<Rightarrow> int"

type_synonym 'a action = "event list \<Rightarrow> event list \<times> (build_error + 'a)"

definition succeed :: "'a \<Rightarrow> 'a action" where
  "succeed x = (\<lambda>tr. (tr, Inr x))"

definition throw :: "build_error \<Rightarrow> 'a action" where
  "throw e = (\<lambda>tr. (tr, Inl e))"

definition and_then :: "'a action \<Rightarrow> ('a \<Rightarrow> 'b action) \<Rightarrow> 'b action" where
  "and_then m f = (\<lambda>tr. case m tr of (tr', Inl e) \<Rightarrow> (tr', Inl e) | (tr', Inr x) \<Rightarrow> f x tr')"

definition perform :: "world \<Rightarrow> call \<Rightarrow> unit action" where
  "perform w c = (\<lambda>tr. (tr @ [Did c], if rejects w c then Inl (Rejected c) else Inr ()))"

text \<open>A call inside \<^verbatim>\<open>try { ... } catch { }\<close>: the error is dropped.\<close>

definition attempt :: "world \<Rightarrow> call \<Rightarrow> unit action" where
  "attempt w c = (\<lambda>tr. (tr @ [Did c], Inr ()))"

fun for_each :: "('a \<Rightarrow> unit action) \<Rightarrow> 'a list \<Rightarrow> unit action" where
  "for_each body [] = succeed ()"
| "for_each body (x # xs) = and_then (body x) (\<lambda>_. for_each body xs)"

section \<open>build.ts: the build steps\<close>

definition clean :: "world \<Rightarrow> config \<Rightarrow> unit action" where
  "clean w cfg = and_then (perform w (Rm (distDir cfg))) (\<lambda>_. perform w (Mkdir (distDir cfg)))"

definition basicReadme :: "config \<Rightarrow> string" where
  "basicReadme cfg =
     ''# '' @ name cfg @ [CHR 0x0A, CHR 0x0A] @
     description cfg @ [CHR 0x0A, CHR 0x0A] @
     ''## Instala'' @ [CHR 0xC3, CHR 0xA7, CHR 0xC3, CHR 0xA3] @ ''o'' @ [CHR 0x0A, CHR 0x0A] @
     ''```bash'' @ [CHR 0x0A] @
     ''bun add '' @ name cfg @ [CHR 0x0A] @
     ''# ou'' @ [CHR 0x0A] @
     ''npm install '' @ name cfg @ [CHR 0x0A] @
     ''```'' @ [CHR 0x0A]"

definition copyMetadataFiles :: "world \<Rightarrow> config \<Rightarrow> bool action" where
  "copyMetadataFiles w cfg =
     (let hasReadme = accessible w ''README.md'' in
      and_then
        (if hasReadme
         then perform w (CopyFile ''README.md'' (path_join (distDir cfg) ''README.md''))
         else perform w (BunWrite (path_join (distDir cfg) ''README.md'') (Text (basicReadme cfg))))
        (\<lambda>_. and_then
          (for_each (\<lambda>file.
             if file = ''README.md'' then succeed ()
             else if accessible w file
               then perform w (CopyFile file (path_join (distDir cfg) file))
               else succeed ())
             (extraFiles cfg))
          (\<lambda>_. succeed hasReadme)))"

text \<open>
  \<^verbatim>\<open>new Bun.Glob(`**/${name}`).scan({ cwd })\<close> for a literal file name: the admitted
  files of the tree whose last component is that name.
\<close>

definition scanNamed :: "world \<Rightarrow> string \<Rightarrow> string \<Rightarrow> string list action" where
  "scanNamed w file cwd =
     and_then (perform w (GlobScan (''**/'' @ file) cwd))
       (\<lambda>_. succeed (filter (\<lambda>f. basename f = file \<and> scanAdmits w f) (sourceTree w)))"

definition buildTarget :: "config \<Rightarrow> string \<Rightarrow> BuildTarget" where
  "buildTarget cfg file =
     (let rel = dirname file in
      \<lparr> entryPath = path_join (srcDir cfg) file,
        outDir = path_join (distDir cfg) rel,
        exportKey = (if rel = ''.'' then ''.''
                     else ''./'' @ map (\<lambda>c. if c = CHR 0x5C then CHR ''/'' else c) rel),
        relDir = rel \<rparr>)"

definition getEntrypoints :: "world \<Rightarrow> config \<Rightarrow> BuildTarget list action" where
  "getEntrypoints w cfg =
     and_then (scanNamed w (entryFile cfg) (srcDir cfg))
       (\<lambda>files.
          let targets = map (buildTarget cfg) files in
          if length targets = 0 then throw NoEntrypoint else succeed targets)"

text \<open>Lines 159 to 169 of buildJS: the list handed to the bundler as \<^verbatim>\<open>external\<close>.\<close>

definition externals :: "config \<Rightarrow> RootPackageJson option \<Rightarrow> string list" where
  "externals cfg rootPkg =
     (let deps = (case rootPkg of None \<Rightarrow> []
                  | Some p \<Rightarrow> (case dependencies p of None \<Rightarrow> [] | Some d \<Rightarrow> map fst d));
          peerDeps = (case rootPkg of None \<Rightarrow> []
                  | Some p \<Rightarrow> (case peerDependencies p of None \<Rightarrow> [] | Some d \<Rightarrow> map fst d));
          allDeps = deps @ peerDeps
      in filter (\<lambda>dep. dep \<notin> set (bundledDependencies cfg)) allDeps)"

definition buildJS :: "world \<Rightarrow> config \<Rightarrow> BuildTarget list \<Rightarrow> RootPackageJson option \<Rightarrow> unit action" where
  "buildJS w cfg targets rootPkg =
     (let ext = externals cfg rootPkg in
      for_each (\<lambda>t.
        and_then (perform w (Mkdir (outDir t))) (\<lambda>_.
        let opts = \<lparr> entrypoints = [entryPath t], outdir = outDir t,
                     bundle_target = target cfg, format = ''esm'', minify = True,
                     splitting = False, external = ext \<rparr> in
        and_then (perform w (BunBuild opts)) (\<lambda>_.
        if \<not> buildSucceeds w opts then throw (BuildFailure (entryPath t))
        else
          let baseName = basename_ext (entryFile cfg) ''.ts'' in
          perform w (Rename (path_join (outDir t) (baseName @ ''.js''))
                            (path_join (outDir t) ''index.js'')))))
        targets)"

definition buildDeclarations :: "world \<Rightarrow> config \<Rightarrow> BuildTarget list \<Rightarrow> unit action" where
  "buildDeclarations w cfg targets =
     and_then (perform w (GlobScan ''**/*.ts'' (srcDir cfg))) (\<lambda>_.
     let scanned = filter (\<lambda>f. endsWith f ''.ts'' \<and> scanAdmits w f) (sourceTree w);
         allSourceFiles =
           map (path_join (srcDir cfg))
             (filter (\<lambda>file. \<not> (includes_str file ''.test.'' \<or> includes_str file ''.spec.''
                                  \<or> includes_str file ''__tests__'')) scanned)
     in
     if length allSourceFiles = 0 then throw NoTypeScriptFiles
     else
       let cmd = [''bun'', ''tsc'', ''--declaration'', ''--emitDeclarationOnly'',
                  ''--outDir'', distDir cfg, ''--rootDir'', srcDir cfg,
                  ''--module'', ''ESNext'', ''--moduleResolution'', ''bundler'',
                  ''--target'', ''ESNext'', ''--strict'', ''--esModuleInterop'',
                  ''--skipLibCheck''] @ allSourceFiles in
       and_then (perform w (SpawnTsc cmd)) (\<lambda>_.
       if tscExit w cmd \<noteq> 0 then throw DeclarationFailure
       else
         for_each (\<lambda>t.
           let baseName = basename_ext (entryFile cfg) ''.ts'' in
           attempt w (Rename (path_join (outDir t) (baseName @ ''.d.ts''))
                             (path_join (outDir t) ''index.d.ts'')))
           targets))"

section \<open>build.ts: the export maps of the two manifests\<close>

definition pathPrefix :: "BuildTarget \<Rightarrow> string" where
  "pathPrefix t = (if relDir t = ''.'' then '''' else relDir t @ ''/'')"

text \<open>Lines 279 to 288 of generatePackageJson.\<close>

definition packageExports :: "BuildTarget list \<Rightarrow> json js_object" where
  "packageExports targets =
     fold (\<lambda>t exports. assign exports (exportKey t)
             (JObject [(''types'', JString (''./'' @ pathPrefix t @ ''index.d.ts'')),
                       (''import'', JString (''./'' @ pathPrefix t @ ''index.js'')),
                       (''default'', JString (''./'' @ pathPrefix t @ ''index.js''))]))
          targets []"

text \<open>Lines 374 to 379 of generateJsrJson.\<close>

definition jsrExports :: "BuildTarget list \<Rightarrow> json js_object" where
  "jsrExports targets =
     fold (\<lambda>t exports. assign exports (exportKey t)
             (JString (''./'' @ pathPrefix t @ ''index.js'')))
          targets []"

section \<open>build.ts: the manifests\<close>

text \<open>Lines 293 to 307 of generatePackageJson: the dependencies copied from the root.\<close>

definition packageDeps :: "config \<Rightarrow> RootPackageJson option \<Rightarrow> string js_object" where
  "packageDeps cfg rootPkg =
     (case rootPkg of None \<Rightarrow> []
      | Some p \<Rightarrow>
          if includeDependencies cfg then
            (case dependencies p of None \<Rightarrow> []
             | Some d \<Rightarrow>
                 fold (\<lambda>(dep, ver) deps.
                         if dep \<notin> set (bundledDependencies cfg) then assign deps dep ver else deps)
                      d [])
          else [])"

text \<open>\<^verbatim>\<open>Object.assign(devDeps, rootPkg.devDependencies)\<close> assigns property by property.\<close>

definition packageDevDeps :: "config \<Rightarrow> RootPackageJson option \<Rightarrow> string js_object" where
  "packageDevDeps cfg rootPkg =
     (case rootPkg of None \<Rightarrow> []
      | Some p \<Rightarrow>
          if includeDevDependencies cfg then
            (case devDependencies p of None \<Rightarrow> []
             | Some d \<Rightarrow> fold (\<lambda>(dep, ver) devDeps. assign devDeps dep ver) d [])
          else [])"

text \<open>
  The object literal of lines 309 to 342, a property with value \<open>None\<close> being
  \<^verbatim>\<open>undefined\<close> and a spread of a falsy value contributing nothing, followed by the
  loop of lines 345 to 347 that deletes the undefined properties.
\<close>

definition spread :: "bool \<Rightarrow> string \<Rightarrow> json \<Rightarrow> (string \<times> json option) list" where
  "spread guard key v = (if guard then [(key, Some v)] else [])"

definition spread_opt :: "json option \<Rightarrow> string \<Rightarrow> (string \<times> json option) list" where
  "spread_opt v key = (case v of None \<Rightarrow> [] | Some j \<Rightarrow> spread (truthy j) key j)"

definition removeUndefined :: "(string \<times> json option) list \<Rightarrow> json js_object" where
  "removeUndefined props = List.map_filter (\<lambda>(k, v). map_option (Pair k) v) props"

definition packageJson ::
  "config \<Rightarrow> BuildTarget list \<Rightarrow> bool \<Rightarrow> RootPackageJson option \<Rightarrow> json js_object" where
  "packageJson cfg targets hasReadme rootPkg =
     (let exports = packageExports targets;
          hasRootExport = list_ex (\<lambda>t. exportKey t = ''.'') targets;
          deps = packageDeps cfg rootPkg;
          devDeps = packageDevDeps cfg rootPkg
      in removeUndefined
        ([(''name'', Some (JString (name cfg))),
          (''version'', Some (JString (version cfg))),
          (''description'', Some (JString (description cfg))),
          (''type'', Some (JString ''module'')),
          (''main'', if hasRootExport then Some (JString ''./index.js'') else None),
          (''types'', if hasRootExport then Some (JString ''./index.d.ts'') else None),
          (''exports'', Some (JObject exports)),
          (''files'', Some (JArray [JString ''**/*.js'', JString ''**/*.d.ts'',
                                   JString ''README.md'', JString ''LICENSE''])),
          (''keywords'', Some (JArray (map JString (keywords' cfg)))),
          (''author'', map_option JString (author cfg)),
          (''license'', Some (JString (license cfg))),
          (''repository'', Some (JString (repository cfg)))]
         @ spread hasReadme ''readme'' (JString ''./README.md'')
         @ spread_opt (Option.bind rootPkg bugs) ''bugs''
         @ spread_opt (map_option JString (Option.bind rootPkg homepage)) ''homepage''
         @ spread_opt (map_option stringObject (Option.bind rootPkg engines)) ''engines''
         @ spread (length (map fst deps) > 0) ''dependencies'' (stringObject deps)
         @ spread (length (map fst devDeps) > 0) ''devDependencies'' (stringObject devDeps)
         @ spread_opt (map_option stringObject (Option.bind rootPkg peerDependencies)) ''peerDependencies''
         @ spread_opt (Option.bind rootPkg peerDependenciesMeta) ''peerDependenciesMeta''))"

definition generatePackageJson ::
  "world \<Rightarrow> config \<Rightarrow> BuildTarget list \<Rightarrow> bool \<Rightarrow> RootPackageJson option \<Rightarrow> unit action" where
  "generatePackageJson w cfg targets hasReadme rootPkg =
     perform w (BunWrite (path_join (distDir cfg) ''package.json'')
                  (Stringified (JObject (packageJson cfg targets hasReadme rootPkg))))"

definition jsrJson :: "config \<Rightarrow> BuildTarget list \<Rightarrow> json js_object" where
  "jsrJson cfg targets =
     [(''name'', JString (name cfg)),
      (''version'', JString (version cfg)),
      (''exports'', JObject (jsrExports targets))]"

definition generateJsrJson ::
  "world \<Rightarrow> config \<Rightarrow> BuildTarget list \<Rightarrow> RootPackageJson option \<Rightarrow> unit action" where
  "generateJsrJson w cfg targets rootPkg =
     perform w (BunWrite (path_join (distDir cfg) ''jsr.json'')
                  (Stringified (JObject (jsrJson cfg targets))))"

section \<open>build.ts: main\<close>

text \<open>
  Lines 399 to 408: the version, description and author of the root package.json replace
  those of the configuration when they are truthy.
\<close>

definition configure :: "config \<Rightarrow> RootPackageJson option \<Rightarrow> config" where
  "configure cfg rootPkg =
     (case rootPkg of None \<Rightarrow> cfg
      | Some p \<Rightarrow>
          let c1 = (case pkg_version p of Some v \<Rightarrow> if v \<noteq> [] then cfg\<lparr>version := v\<rparr> else cfg
                    | None \<Rightarrow> cfg);
              c2 = (case pkg_description p of
                      Some d \<Rightarrow> if d \<noteq> [] then c1\<lparr>description := d\<rparr> else c1
                    | None \<Rightarrow> c1)
          in (case pkg_author p of
                None \<Rightarrow> c2
              | Some (AuthorString a) \<Rightarrow> if a \<noteq> [] then c2\<lparr>author := Some a\<rparr> else c2
              | Some (AuthorObject n) \<Rightarrow> c2\<lparr>author := n\<rparr>))"

text \<open>
  The body of the \<^verbatim>\<open>try\<close> block for a given starting configuration, and the run
  itself: the events performed, closed by the error report and
  \<^verbatim>\<open>process.exit(1)\<close> when the body threw.
\<close>

definition build :: "world \<Rightarrow> config \<Rightarrow> unit action" where
  "build w cfg0 =
     (let rootPkg = rootPackage w;
          cfg = configure cfg0 rootPkg in
      and_then (clean w cfg) (\<lambda>_.
      and_then (copyMetadataFiles w cfg) (\<lambda>hasReadme.
      and_then (getEntrypoints w cfg) (\<lambda>targets.
      and_then (buildJS w cfg targets rootPkg) (\<lambda>_.
      and_then (buildDeclarations w cfg targets) (\<lambda>_.
      and_then (generatePackageJson w cfg targets hasReadme rootPkg) (\<lambda>_.
      and_then (generateJsrJson w cfg targets rootPkg) (\<lambda>_.
      perform w (GlobScan ''**/*'' (distDir cfg))))))))))"

definition run :: "world \<Rightarrow> config \<Rightarrow> event list" where
  "run w cfg0 =
     (case build w cfg0 [] of
        (tr, Inl e) \<Rightarrow> tr @ [ConsoleError e, ProcessExit 1]
      | (tr, Inr _) \<Rightarrow> tr)"

definition main :: "world \<Rightarrow> event list" where
  "main w = run w CONFIG"

text \<open>The paths a run creates itself, by writing, copying or renaming.\<close>

fun created :: "event \<Rightarrow> string list" where
  "created (Did (BunWrite p _)) = [p]"
| "created (Did (CopyFile _ p)) = [p]"
| "created (Did (Rename _ p)) = [p]"
| "created _ = []"

definition exitCode :: "event list \<Rightarrow> nat option" where
  "exitCode tr = (case [n. ProcessExit n \<leftarrow> tr] of [] \<Rightarrow> None | n # _ \<Rightarrow> Some n)"

section \<open>The specification generator\<close>

text \<open>
  Modelled from the spec: \<^verbatim>\<open>generateSpecs\<close> (handler.ts) and
  \<^verbatim>\<open>describeRoute\<close> (middlewares.ts) are not among the sources; only their test
  flat-syntax.test.ts is. The definitions of this section follow the words of the
  specification: registered routes carry metadata dictionaries whose leaves may be
  validation schemas; each schema is converted, response shapes are normalised, and the
  dictionaries are merged into one document keyed by path and HTTP method, with unique keys
  and last-write-wins. The schema library and its conversion are outside the repository, so
  the schema type \<open>'s\<close> and the conversion \<open>conv\<close> are parameters.
\<close>

text \<open>
  Modelled from the spec: the metadata dictionary given to \<^verbatim>\<open>describeRoute\<close>, a
  JSON-like value in which a validation schema object may stand at any place.
\<close>

datatype 's meta =
    MNull
  | MBool bool
  | MNumber int
  | MString string
  | MArray "'s meta list"
  | MDict "(string \<times> 's meta) list"
  | MSchema 's

text \<open>
  Modelled from the spec: a registered route of the web framework with the metadata
  attached to it; the framework's routing table is the list of routes in registration order.
\<close>

record 's route =
  path :: string
  httpMethod :: string
  metadata :: "(string \<times> 's meta) list"

text \<open>
  Modelled from the spec: "converting each validation schema into an OpenAPI-compatible
  schema representation"; everything else is emitted as it is.
\<close>

fun emit :: "('s \<Rightarrow> json) \<Rightarrow> 's meta \<Rightarrow> json" where
  "emit conv MNull = JNull"
| "emit conv (MBool b) = JBool b"
| "emit conv (MNumber n) = JNumber n"
| "emit conv (MString s) = JString s"
| "emit conv (MArray xs) = JArray (map (emit conv) xs)"
| "emit conv (MDict props) = JObject (map (\<lambda>(k, v). (k, emit conv v)) props)"
| "emit conv (MSchema s) = conv s"

text \<open>Modelled from the spec: a status code written in decimal, as a map key is.\<close>

fun decimal :: "nat \<Rightarrow> string" where
  "decimal n =
     (if n < 10 then [char_of (48 + n)]
      else decimal (n div 10) @ [char_of (48 + n mod 10)])"

text \<open>Modelled from the spec: the key of the responses map for a status code.\<close>

definition statusKey :: "int \<Rightarrow> string" where
  "statusKey n = (if n < 0 then ''-'' @ decimal (nat (- n)) else decimal (nat n))"

text \<open>
  Modelled from the spec: "collapsing a convenience \<^verbatim>\<open>status\<close> field into the map
  key": an entry of the responses dictionary is emitted under its status when it has one,
  under its own key otherwise.
\<close>

definition responseKey :: "string \<Rightarrow> 's meta \<Rightarrow> string" where
  "responseKey key entry =
     (case entry of
        MDict props \<Rightarrow> (case map_of props ''status'' of Some (MNumber n) \<Rightarrow> statusKey n | _ \<Rightarrow> key)
      | _ \<Rightarrow> key)"

text \<open>Modelled from the spec: "defaulting content types".\<close>

definition mediaType :: "(string \<times> 's meta) list \<Rightarrow> string" where
  "mediaType props =
     (case map_of props ''type'' of Some (MString t) \<Rightarrow> t | _ \<Rightarrow> ''application/json'')"

text \<open>
  Modelled from the spec: "wrapping bodies under \<^verbatim>\<open>content/<media-type>/schema\<close>".
  The three convenience fields leave the response object; the converted schema, when there
  is one, enters it under \<^verbatim>\<open>content\<close>. A response that is not a dictionary is
  malformed and emitted as it is.
\<close>

definition normalizeResponse :: "('s \<Rightarrow> json) \<Rightarrow> 's meta \<Rightarrow> json" where
  "normalizeResponse conv entry =
     (case entry of
        MDict props \<Rightarrow>
          let rest = AList.delete ''status'' (AList.delete ''type'' (AList.delete ''schema'' props));
              base = map (\<lambda>(k, v). (k, emit conv v)) rest
          in JObject
               (case map_of props ''schema'' of
                  None \<Rightarrow> base
                | Some s \<Rightarrow>
                    AList.update ''content''
                      (JObject [(mediaType props, JObject [(''schema'', emit conv s)])]) base)
      | other \<Rightarrow> emit conv other)"

text \<open>
  Modelled from the spec: the responses map of an operation, built key by key from the
  responses dictionary; keys are unique and a later entry overwrites an earlier one
  emitted under the same key.
\<close>

definition normalizeResponses :: "('s \<Rightarrow> json) \<Rightarrow> 's meta \<Rightarrow> json" where
  "normalizeResponses conv responses =
     (case responses of
        MDict entries \<Rightarrow>
          JObject
            (fold (\<lambda>key acc.
                     case map_of entries key of
                       None \<Rightarrow> acc
                     | Some entry \<Rightarrow>
                         AList.update (responseKey key entry) (normalizeResponse conv entry) acc)
                  (map fst entries) [])
      | other \<Rightarrow> emit conv other)"

text \<open>
  Modelled from the spec: one field of a metadata dictionary as it is emitted; the
  responses are normalised, every other field is converted.
\<close>

definition emitField :: "('s \<Rightarrow> json) \<Rightarrow> string \<Rightarrow> 's meta \<Rightarrow> json" where
  "emitField conv key v = (if key = ''responses'' then normalizeResponses conv v else emit conv v)"

text \<open>
  Modelled from the spec: the operation object of a route, its metadata dictionary with
  every field emitted.
\<close>

definition operation :: "('s \<Rightarrow> json) \<Rightarrow> (string \<times> 's meta) list \<Rightarrow> (string \<times> json) list" where
  "operation conv md = map (\<lambda>(k, v). (k, emitField conv k v)) md"

text \<open>
  Modelled from the spec: "keys are unique, merge is last-write-wins": every key of the
  second dictionary is written into the first.
\<close>

definition merge :: "(string \<times> json) list \<Rightarrow> (string \<times> json) list \<Rightarrow> (string \<times> json) list" where
  "merge a b =
     fold (\<lambda>key acc. case map_of b key of None \<Rightarrow> acc | Some v \<Rightarrow> AList.update key v acc)
          (map fst b) a"

text \<open>Modelled from the spec: the HTTP method as the lower-case key of a path item.\<close>

definition toLowerCase :: "string \<Rightarrow> string" where
  "toLowerCase s =
     map (\<lambda>c. let n = (of_char c :: nat) in
               if 65 \<le> n \<and> n \<le> 90 then char_of (n + 32) else c) s"

text \<open>
  Modelled from the spec: "merge several optional metadata dictionaries into an aggregate
  document, keyed by path and HTTP method": one route is merged into the paths built so far.
\<close>

definition registerRoute ::
  "('s \<Rightarrow> json) \<Rightarrow> 's route \<Rightarrow> (string \<times> json) list \<Rightarrow> (string \<times> json) list" where
  "registerRoute conv r paths =
     (let item = (case map_of paths (path r) of Some (JObject it) \<Rightarrow> it | _ \<Rightarrow> []);
          existing = (case map_of item (toLowerCase (httpMethod r)) of
                        Some (JObject op) \<Rightarrow> op | _ \<Rightarrow> [])
      in AList.update (path r)
           (JObject (AList.update (toLowerCase (httpMethod r))
                       (JObject (merge existing (operation conv (metadata r)))) item))
           paths)"

text \<open>
  Modelled from the spec: "walks the framework's registered routes to assemble an OpenAPI
  specification document". Of the document only \<^verbatim>\<open>paths\<close> is described by the
  specification and modelled.
\<close>

definition generateSpecs :: "('s \<Rightarrow> json) \<Rightarrow> 's route list \<Rightarrow> json" where
  "generateSpecs conv routes = JObject [(''paths'', JObject (fold (registerRoute conv) routes []))]"

text \<open>Reading a document along a list of keys, as \<^verbatim>\<open>doc?.a?.b?.c\<close> does.\<close>

fun at :: "json \<Rightarrow> string list \<Rightarrow> json option" where
  "at j [] = Some j"
| "at j (key # keys) = (case field key j of None \<Rightarrow> None | Some v \<Rightarrow> at v keys)"

text \<open>Modelled from the spec: the path and lower-case method a route is keyed by.\<close>

definition routeKey :: "'s route \<Rightarrow> string \<times> string" where
  "routeKey r = (path r, toLowerCase (httpMethod r))"

section \<open>Reading the results\<close>

text \<open>The \<^verbatim>\<open>exports\<close> object of a manifest.\<close>

definition exportsOf :: "json js_object \<Rightarrow> json js_object" where
  "exportsOf manifest = (case map_of manifest ''exports'' of Some (JObject e) \<Rightarrow> e | _ \<Rightarrow> [])"

text \<open>
  The relation between the two export objects while they are built: the same keys in the
  same order, and each value of the second is the \<^verbatim>\<open>import\<close> of the first.
\<close>

definition exports_related :: "json js_object \<Rightarrow> json js_object \<Rightarrow> bool" where
  "exports_related p j \<longleftrightarrow>
     map fst j = map fst p \<and> (\<forall>k. map_of j k = Option.bind (map_of p k) (field ''import''))"

text \<open>An action only appends calls, each of which satisfies \<open>P\<close>.\<close>

definition emits :: "(call \<Rightarrow> bool) \<Rightarrow> 'a action \<Rightarrow> bool" where
  "emits P m \<longleftrightarrow> (\<forall>tr. \<exists>cs. fst (m tr) = tr @ map Did cs \<and> list_all P cs)"

definition keepsManifests :: "call \<Rightarrow> bool" where
  "keepsManifests c \<longleftrightarrow>
     ''dist/package.json'' \<notin> set (created (Did c)) \<and> ''dist/jsr.json'' \<notin> set (created (Did c))"

text \<open>The operation, and one of its fields, under a path and a method of the paths object.\<close>

definition opAt :: "(string \<times> json) list \<Rightarrow> string \<Rightarrow> string \<Rightarrow> json option" where
  "opAt paths p m = at (JObject paths) [p, m]"

definition fieldAt :: "(string \<times> json) list \<Rightarrow> string \<Rightarrow> string \<Rightarrow> string \<Rightarrow> json option" where
  "fieldAt paths p m k = at (JObject paths) [p, m, k]"

text \<open>The keys of the object found along a list of keys (none when there is no object).\<close>

definition keysAt :: "json \<Rightarrow> string list \<Rightarrow> string list" where
  "keysAt doc keys = (case at doc keys of Some (JObject props) \<Rightarrow> map fst props | _ \<Rightarrow> [])"




text \<open>
  Unique keys in the paths object, in every path item and in every operation; path items and
  operations are objects.
\<close>

definition uniqueBelow :: "json \<Rightarrow> bool" where
  "uniqueBelow item \<longleftrightarrow>
     (case item of
        JObject methods \<Rightarrow>
          distinct (map fst methods) \<and>
          list_all (\<lambda>(m, opn). case opn of JObject props \<Rightarrow> distinct (map fst props)
                                       | _ \<Rightarrow> False) methods
      | _ \<Rightarrow> False)"

definition uniquePaths :: "(string \<times> json) list \<Rightarrow> bool" where
  "uniquePaths paths \<longleftrightarrow> distinct (map fst paths) \<and> list_all (\<lambda>(p, item). uniqueBelow item) paths"

text \<open>The names of the dependencies and peer dependencies of the root package.json.\<close>

definition rootDependencyNames :: "RootPackageJson option \<Rightarrow> string list" where
  "rootDependencyNames rootPkg =
     (case rootPkg of None \<Rightarrow> [] | Some p \<Rightarrow> (case dependencies p of None \<Rightarrow> [] | Some d \<Rightarrow> map fst d))"

definition rootPeerDependencyNames :: "RootPackageJson option \<Rightarrow> string list" where
  "rootPeerDependencyNames rootPkg =
     (case rootPkg of None \<Rightarrow> []
      | Some p \<Rightarrow> (case peerDependencies p of None \<Rightarrow> [] | Some d \<Rightarrow> map fst d))"

section \<open>Sample inputs\<close>

text \<open>A source tree without an entry file, in a directory that has a README.\<close>

definition emptyProject :: world where
  "emptyProject =
     \<lparr> rootPackage = None,
       accessible = (\<lambda>f. f = ''README.md''),
       sourceTree = [''handler.ts'', ''__tests__/flat-syntax.test.ts''],
       scanAdmits = (\<lambda>f. True),
       rejects = (\<lambda>c. False),
       buildSucceeds = (\<lambda>opts. True),
       tscExit = (\<lambda>cmd. 0) \<rparr>"


definition testRoute :: "(string \<times> json meta) list \<Rightarrow> json route" where
  "testRoute entries =
     \<lparr> path = ''/'', httpMethod = ''GET'',
       metadata = [(''description'', MString ''Test route''), (''responses'', MDict entries)] \<rparr>"


text \<open>A root package.json that lists a dependency named \<^verbatim>\<open>__proto__\<close>.\<close>

definition protoPackage :: RootPackageJson where
  "protoPackage =
     \<lparr> pkg_name = Some ''demo'', pkg_version = Some ''0.1.0'', pkg_description = None,
       pkg_author = None,
       dependencies = Some [(''__proto__'', ''1.0.0''), (''hono'', ''4.0.0'')],
       devDependencies = None, peerDependencies = None, peerDependenciesMeta = None,
       engines = None, bugs = None, homepage = None \<rparr>"



text \<open>
  Two further routes: a POST route on another path, and two GET routes registered on the
  same path.
\<close>

definition usersRoute :: "json route" where
  "usersRoute = \<lparr> path = ''/users'', httpMethod = ''POST'',
                  metadata = [(''description'', MString ''Create user'')] \<rparr>"

definition firstRoute :: "json route" where
  "firstRoute = \<lparr> path = ''/'', httpMethod = ''GET'',
                  metadata = [(''summary'', MString ''Ping''), (''description'', MString ''First'')] \<rparr>"

definition secondRoute :: "json route" where
  "secondRoute = \<lparr> path = ''/'', httpMethod = ''GET'',
                   metadata = [(''description'', MString ''Second'')] \<rparr>"









section \<open>The export maps agree\<close>

lemma assign_related:
  assumes "exports_related p j" and "field ''import'' e = Some v"
  shows "exports_related (assign p k e) (assign j k v)"
  using assms
  by (auto simp: exports_related_def assign_def AList.update_keys AList.update_conv')

lemma fold_related:
  assumes "exports_related p j"
  shows "exports_related
     (fold (\<lambda>t exports. assign exports (exportKey t)
             (JObject [(''types'', JString (''./'' @ pathPrefix t @ ''index.d.ts'')),
                       (''import'', JString (''./'' @ pathPrefix t @ ''index.js'')),
                       (''default'', JString (''./'' @ pathPrefix t @ ''index.js''))])) ts p)
     (fold (\<lambda>t exports. assign exports (exportKey t)
             (JString (''./'' @ pathPrefix t @ ''index.js''))) ts j)"
  using assms
proof (induction ts arbitrary: p j)
  case Nil
  then show ?case by simp
next
  case (Cons t ts)
  show ?case
    unfolding fold_simps
    by (rule Cons.IH, rule assign_related [OF Cons.prems]) (simp add: field_def)
qed

lemma exports_related_built: "exports_related (packageExports ts) (jsrExports ts)"
  unfolding packageExports_def jsrExports_def
  by (rule fold_related) (simp add: exports_related_def)

lemma exportsOf_packageJson: "exportsOf (packageJson cfg ts hasReadme rootPkg) = packageExports ts"
  by (simp add: exportsOf_def packageJson_def removeUndefined_def List.map_filter_def Let_def)

lemma exportsOf_jsrJson: "exportsOf (jsrJson cfg ts) = jsrExports ts"
  by (simp add: exportsOf_def jsrJson_def)

text \<open>
  C9: for every list of build targets, the \<^verbatim>\<open>exports\<close> objects of the generated
  package.json and jsr.json have the same keys, and under each key the jsr.json value is the
  \<^verbatim>\<open>import\<close> path of the package.json entry (and a key absent from one is absent
  from the other).
\<close>

theorem exports_agree:
  "set (map fst (exportsOf (jsrJson cfg targets)))
     = set (map fst (exportsOf (packageJson cfg targets hasReadme rootPkg)))
   \<and> map_of (exportsOf (jsrJson cfg targets)) k
     = Option.bind (map_of (exportsOf (packageJson cfg targets hasReadme rootPkg)) k)
         (field ''import'')"
  using exports_related_built [of targets]
  by (simp add: exportsOf_packageJson exportsOf_jsrJson exports_related_def)

section \<open>A build without an entry file\<close>

lemma configure_fixed:
  "distDir (configure c r) = distDir c"
  "srcDir (configure c r) = srcDir c"
  "entryFile (configure c r) = entryFile c"
  "extraFiles (configure c r) = extraFiles c"
  "bundledDependencies (configure c r) = bundledDependencies c"
  "includeDependencies (configure c r) = includeDependencies c"
  "includeDevDependencies (configure c r) = includeDevDependencies c"
  "name (configure c r) = name c"
  by (simp_all add: configure_def Let_def split: option.splits author_field.splits)

lemma emits_succeed: "emits P (succeed x)"
  by (simp add: emits_def succeed_def)

lemma emits_throw: "emits P (throw e)"
  by (simp add: emits_def throw_def)

lemma emits_perform: "P c \<Longrightarrow> emits P (perform w c)"
  unfolding emits_def perform_def
  by (intro allI exI [of _ "[c]"]) simp

lemma emits_and_then:
  assumes "emits P m" and "\<And>x. emits P (f x)"
  shows "emits P (and_then m f)"
  unfolding emits_def
proof
  fix tr
  from assms(1) obtain cs where m: "fst (m tr) = tr @ map Did cs" "list_all P cs"
    unfolding emits_def by blast
  show "\<exists>cs. fst (and_then m f tr) = tr @ map Did cs \<and> list_all P cs"
  proof (cases "snd (m tr)")
    case (Inl e)
    then have "fst (and_then m f tr) = fst (m tr)"
      by (cases "m tr") (simp add: and_then_def)
    with m show ?thesis by auto
  next
    case (Inr x)
    then have eq: "and_then m f tr = f x (fst (m tr))"
      by (cases "m tr") (simp add: and_then_def)
    from assms(2) [of x] obtain ds where
      "fst (f x (fst (m tr))) = fst (m tr) @ map Did ds" "list_all P ds"
      unfolding emits_def by blast
    with m eq have "fst (and_then m f tr) = tr @ map Did (cs @ ds) \<and> list_all P (cs @ ds)"
      by simp
    then show ?thesis by blast
  qed
qed

lemma emits_for_each:
  assumes "\<And>x. x \<in> set xs \<Longrightarrow> emits P (body x)"
  shows "emits P (for_each body xs)"
  using assms
  by (induction xs) (simp_all add: emits_succeed emits_and_then)

lemma and_then_failing:
  assumes "\<And>tr. \<exists>e. snd (m tr) = Inl e"
  shows "and_then m f = (\<lambda>tr. (fst (m tr), Inl (projl (snd (m tr)))))"
proof
  fix tr
  from assms [of tr] obtain e where "snd (m tr) = Inl e" by blast
  then show "and_then m f tr = (fst (m tr), Inl (projl (snd (m tr))))"
    by (cases "m tr") (simp add: and_then_def)
qed

lemma clean_emits:
  assumes "P (Rm (distDir cfg))" and "P (Mkdir (distDir cfg))"
  shows "emits P (clean w cfg)"
  unfolding clean_def using assms by (intro emits_and_then emits_perform)

lemma copyMetadataFiles_emits:
  assumes "\<And>src file. P (CopyFile src (path_join (distDir cfg) file)) \<longleftrightarrow> Q file"
      and "\<And>t. P (BunWrite (path_join (distDir cfg) ''README.md'') t)"
      and "Q ''README.md''" and "\<And>file. file \<in> set (extraFiles cfg) \<Longrightarrow> Q file"
  shows "emits P (copyMetadataFiles w cfg)"
  unfolding copyMetadataFiles_def Let_def using assms
  by (intro emits_and_then emits_for_each) (simp_all add: emits_perform emits_succeed)

lemma getEntrypoints_emits:
  assumes "\<And>p d. P (GlobScan p d)"
  shows "emits P (getEntrypoints w cfg)"
  unfolding getEntrypoints_def scanNamed_def Let_def using assms
  by (intro emits_and_then) (simp_all add: emits_perform emits_succeed emits_throw)

lemma scanNamed_empty:
  assumes "\<forall>f \<in> set (sourceTree w). basename f \<noteq> file"
  shows "scanNamed w file cwd tr =
           (tr @ [Did (GlobScan (''**/'' @ file) cwd)],
            if rejects w (GlobScan (''**/'' @ file) cwd)
            then Inl (Rejected (GlobScan (''**/'' @ file) cwd)) else Inr [])"
proof -
  have "filter (\<lambda>f. basename f = file \<and> scanAdmits w f) (sourceTree w) = []"
    using assms by (simp add: filter_empty_conv)
  then show ?thesis
    by (simp add: scanNamed_def and_then_def perform_def succeed_def)
qed

lemma getEntrypoints_empty:
  assumes "\<forall>f \<in> set (sourceTree w). basename f \<noteq> entryFile cfg"
  shows "getEntrypoints w cfg tr =
           (tr @ [Did (GlobScan (''**/'' @ entryFile cfg) (srcDir cfg))],
            Inl (if rejects w (GlobScan (''**/'' @ entryFile cfg) (srcDir cfg))
                 then Rejected (GlobScan (''**/'' @ entryFile cfg) (srcDir cfg))
                 else NoEntrypoint))"
  by (simp add: getEntrypoints_def and_then_def scanNamed_empty [OF assms] throw_def)

lemma exitCode_failed: "exitCode (map Did cs @ [ConsoleError e, ProcessExit n]) = Some n"
  by (induction cs) (simp_all add: exitCode_def)

text \<open>
  C8: when no file below the source directory is named index.ts, getEntrypoints throws, and
  main reports an error and exits with status 1 without having written, copied or renamed
  anything to dist/package.json or dist/jsr.json.
\<close>

theorem no_entrypoint_aborts:
  assumes "\<forall>f \<in> set (sourceTree w). basename f \<noteq> ''index.ts''"
  shows "(\<exists>e. snd (getEntrypoints w (configure CONFIG (rootPackage w)) tr) = Inl e)
       \<and> (\<exists>e. ConsoleError e \<in> set (main w))
       \<and> exitCode (main w) = Some 1
       \<and> ''dist/package.json'' \<notin> set (concat (map created (main w)))
       \<and> ''dist/jsr.json'' \<notin> set (concat (map created (main w)))"
proof -
  let ?cfg = "configure CONFIG (rootPackage w)"
  have cfg: "entryFile ?cfg = ''index.ts''" "srcDir ?cfg = ''src''" "distDir ?cfg = ''dist''"
    "extraFiles ?cfg = [''LICENSE'', ''README.md'']"
    by (simp_all add: configure_fixed CONFIG_def)
  have "\<forall>f \<in> set (sourceTree w). basename f \<noteq> entryFile ?cfg"
    using assms cfg by simp
  note none = getEntrypoints_empty [OF this]
  have fails: "\<exists>e. snd (getEntrypoints w ?cfg tr') = Inl e" for tr'
    by (simp add: none)
  let ?prefix = "and_then (clean w ?cfg) (\<lambda>_.
                 and_then (copyMetadataFiles w ?cfg) (\<lambda>hasReadme.
                   (\<lambda>tr. (fst (getEntrypoints w ?cfg tr),
                          Inl (projl (snd (getEntrypoints w ?cfg tr))) :: build_error + unit))))"
  have build: "build w CONFIG = ?prefix"
    unfolding build_def Let_def
    by (subst and_then_failing [of "getEntrypoints w ?cfg", OF fails]) (rule refl)
  have "emits keepsManifests (getEntrypoints w ?cfg)"
    by (rule getEntrypoints_emits) (simp add: keepsManifests_def)
  then have last: "emits keepsManifests
      (\<lambda>tr. (fst (getEntrypoints w ?cfg tr),
             Inl (projl (snd (getEntrypoints w ?cfg tr))) :: build_error + unit))"
    by (simp add: emits_def)
  have "emits keepsManifests ?prefix"
    by (intro emits_and_then clean_emits
          copyMetadataFiles_emits [where Q = "\<lambda>file. file \<noteq> ''package.json'' \<and> file \<noteq> ''jsr.json''"] last)
       (auto simp: keepsManifests_def cfg path_join_def)
  then have "\<exists>cs. fst (?prefix []) = [] @ map Did cs \<and> list_all keepsManifests cs"
    unfolding emits_def by (rule spec)
  then obtain cs where cs: "fst (build w CONFIG []) = map Did cs" "list_all keepsManifests cs"
    unfolding build by auto
  have "\<exists>e. snd (?prefix []) = Inl e"
    by (simp add: and_then_def split: prod.splits sum.splits)
  then obtain e where "snd (build w CONFIG []) = Inl e"
    unfolding build by blast
  with cs have main: "main w = map Did cs @ [ConsoleError e, ProcessExit 1]"
    by (cases "build w CONFIG []") (simp add: main_def run_def)
  have "''dist/package.json'' \<notin> set (concat (map created (map Did cs)))"
       "''dist/jsr.json'' \<notin> set (concat (map created (map Did cs)))"
    using cs(2) by (induction cs) (simp_all add: keepsManifests_def)
  then show ?thesis
    using fails [of tr] by (auto simp: main exitCode_failed)
qed

theorem no_entrypoint_aborts_witness:
  "(\<exists>e. snd (getEntrypoints emptyProject (configure CONFIG (rootPackage emptyProject)) []) = Inl e)
   \<and> (\<exists>e. ConsoleError e \<in> set (main emptyProject))
   \<and> exitCode (main emptyProject) = Some 1
   \<and> ''dist/package.json'' \<notin> set (concat (map created (main emptyProject)))
   \<and> ''dist/jsr.json'' \<notin> set (concat (map created (main emptyProject)))"
proof -
  have "\<forall>f \<in> set (sourceTree emptyProject). basename f \<noteq> ''index.ts''"
    by (simp add: emptyProject_def basename_def)
  then show ?thesis
    by (rule no_entrypoint_aborts)
qed

section \<open>The specification generator: lemmas\<close>

subsection \<open>Merging dictionaries\<close>

lemma map_of_merge_fold:
  "map_of (fold (\<lambda>key acc. case map_of b key of None \<Rightarrow> acc | Some v \<Rightarrow> AList.update key v acc) ks a) k
     = (if k \<in> set ks then (case map_of b k of Some v \<Rightarrow> Some v | None \<Rightarrow> map_of a k)
        else map_of a k)"
  by (induction ks arbitrary: a) (auto simp: update_conv' split: option.splits)

lemma map_of_merge:
  "map_of (merge a b) k = (case map_of b k of Some v \<Rightarrow> Some v | None \<Rightarrow> map_of a k)"
proof (cases "map_of b k")
  case None
  then show ?thesis
    unfolding merge_def map_of_merge_fold by simp
next
  case (Some v)
  then have "k \<in> set (map fst b)"
    by (force dest: map_of_SomeD)
  with Some show ?thesis
    unfolding merge_def map_of_merge_fold by simp
qed

lemma distinct_merge_fold:
  "distinct (map fst a) \<Longrightarrow>
   distinct (map fst (fold (\<lambda>key acc. case map_of b key of None \<Rightarrow> acc
                                        | Some v \<Rightarrow> AList.update key v acc) ks a))"
  by (induction ks arbitrary: a) (auto simp: distinct_update split: option.splits)

lemma distinct_merge: "distinct (map fst a) \<Longrightarrow> distinct (map fst (merge a b))"
  unfolding merge_def by (rule distinct_merge_fold)

lemma map_of_operation:
  "map_of (operation conv md) k = map_option (emitField conv k) (map_of md k)"
  unfolding operation_def by (induction md) auto

subsection \<open>Registering routes\<close>

lemma opAt_registerRoute:
  "opAt (registerRoute conv r paths) p m =
     (if (p, m) = routeKey r
      then Some (JObject (merge (case opAt paths p m of Some (JObject op) \<Rightarrow> op | _ \<Rightarrow> [])
                                (operation conv (metadata r))))
      else opAt paths p m)"
  by (auto simp: opAt_def registerRoute_def routeKey_def field_def update_conv' Let_def
           split: option.splits json.splits)

lemma fieldAt_opAt: "fieldAt paths p m k = Option.bind (opAt paths p m) (field k)"
  by (auto simp: fieldAt_def opAt_def split: option.splits)

lemma fieldAt_registerRoute:
  "fieldAt (registerRoute conv r paths) p m k =
     (if (p, m) = routeKey r
      then (case map_of (metadata r) k of
              Some v \<Rightarrow> Some (emitField conv k v)
            | None \<Rightarrow> fieldAt paths p m k)
      else fieldAt paths p m k)"
  unfolding fieldAt_opAt opAt_registerRoute
  by (auto simp: field_def map_of_merge map_of_operation split: option.splits json.splits)

lemma fieldAt_later_routes:
  assumes "fieldAt paths p m k = Some V"
      and "\<forall>r \<in> set routes. routeKey r = (p, m) \<longrightarrow> map_of (metadata r) k = None"
  shows "fieldAt (fold (registerRoute conv) routes paths) p m k = Some V"
  using assms
proof (induction routes arbitrary: paths)
  case Nil
  then show ?case by simp
next
  case (Cons r routes)
  have "fieldAt (registerRoute conv r paths) p m k = Some V"
    using Cons.prems by (auto simp: fieldAt_registerRoute)
  with Cons show ?case by simp
qed

lemma at_generateSpecs:
  "at (generateSpecs conv routes) (''paths'' # keys) = at (JObject (fold (registerRoute conv) routes [])) keys"
  by (simp add: generateSpecs_def field_def)

lemma field_of_last_writer:
  assumes "map_of (metadata r) k = Some v"
      and "\<forall>r' \<in> set after. routeKey r' = routeKey r \<longrightarrow> map_of (metadata r') k = None"
  shows "at (generateSpecs conv (before @ r # after)) [''paths'', path r, toLowerCase (httpMethod r), k]
           = Some (emitField conv k v)"
proof -
  let ?acc = "registerRoute conv r (fold (registerRoute conv) before [])"
  have "fieldAt ?acc (path r) (toLowerCase (httpMethod r)) k = Some (emitField conv k v)"
    using assms(1) by (simp add: fieldAt_registerRoute routeKey_def)
  then have "fieldAt (fold (registerRoute conv) after ?acc) (path r) (toLowerCase (httpMethod r)) k
               = Some (emitField conv k v)"
    using assms(2) by (intro fieldAt_later_routes) (auto simp: routeKey_def)
  then show ?thesis
    unfolding at_generateSpecs by (simp add: fieldAt_def)
qed


subsection \<open>The responses map\<close>




subsection \<open>The emitted response\<close>






subsection \<open>The sample routes\<close>


lemma sample_keys:
  "routeKey usersRoute = (''/users'', ''post'')"
  "routeKey firstRoute = (''/'', ''get'')"
  "routeKey secondRoute = (''/'', ''get'')"
  "routeKey (testRoute entries) = (''/'', ''get'')"
  unfolding routeKey_def usersRoute_def firstRoute_def secondRoute_def testRoute_def
  by (simp, code_simp)+



section \<open>The flat response syntax\<close>










section \<open>The aggregate document\<close>





lemma set_update_subset: "set (AList.update k v al) \<subseteq> insert (k, v) (set al)"
  by (induction al) auto

lemma list_all_update:
  assumes "list_all P al" and "P (k, v)"
  shows "list_all P (AList.update k v al)"
  using assms set_update_subset [of k v al] by (auto simp: list_all_iff)

lemma uniquePaths_item:
  assumes "uniquePaths paths" and "map_of paths p = Some item"
  shows "uniqueBelow item"
  using assms by (auto simp: uniquePaths_def list_all_iff dest: map_of_SomeD)

lemma uniqueBelow_operation:
  assumes "uniqueBelow (JObject methods)" and "map_of methods m = Some (JObject props)"
  shows "distinct (map fst props)"
  using assms by (auto simp: uniqueBelow_def list_all_iff dest!: map_of_SomeD)

lemma uniquePaths_registerRoute:
  assumes "uniquePaths paths"
  shows "uniquePaths (registerRoute conv r paths)"
proof -
  define item where "item = (case map_of paths (path r) of Some (JObject it) \<Rightarrow> it | _ \<Rightarrow> [])"
  define existing where "existing =
    (case map_of item (toLowerCase (httpMethod r)) of Some (JObject op) \<Rightarrow> op | _ \<Rightarrow> [])"
  have item: "uniqueBelow (JObject item)"
  proof (cases "map_of paths (path r)")
    case None
    then show ?thesis by (simp add: item_def uniqueBelow_def)
  next
    case (Some v)
    with assms have "uniqueBelow v" by (rule uniquePaths_item)
    with Some show ?thesis by (cases v) (simp_all add: item_def uniqueBelow_def)
  qed
  have "distinct (map fst existing)"
  proof (cases "map_of item (toLowerCase (httpMethod r))")
    case None
    then show ?thesis by (simp add: existing_def)
  next
    case (Some v)
    show ?thesis
    proof (cases v)
      case (JObject props)
      with Some item have "distinct (map fst props)"
        by (auto intro: uniqueBelow_operation)
      with Some JObject show ?thesis by (simp add: existing_def)
    qed (use Some in \<open>simp_all add: existing_def\<close>)
  qed
  then have "distinct (map fst (merge existing (operation conv (metadata r))))"
    by (rule distinct_merge)
  with item have "uniqueBelow (JObject (AList.update (toLowerCase (httpMethod r))
      (JObject (merge existing (operation conv (metadata r)))) item))"
    by (simp add: uniqueBelow_def distinct_update list_all_update)
  with assms have "uniquePaths (AList.update (path r)
      (JObject (AList.update (toLowerCase (httpMethod r))
         (JObject (merge existing (operation conv (metadata r)))) item)) paths)"
    by (simp add: uniquePaths_def distinct_update list_all_update)
  then show ?thesis
    by (simp add: registerRoute_def item_def existing_def Let_def)
qed

lemma uniquePaths_fold:
  "uniquePaths paths \<Longrightarrow> uniquePaths (fold (registerRoute conv) routes paths)"
  by (induction routes arbitrary: paths) (simp_all add: uniquePaths_registerRoute)

lemma uniquePaths_generated: "uniquePaths (fold (registerRoute conv) routes [])"
  by (rule uniquePaths_fold) (simp add: uniquePaths_def)

lemma unique_keys:
  "distinct (keysAt (generateSpecs conv routes) [''paths''])"
  "distinct (keysAt (generateSpecs conv routes) [''paths'', p])"
  "distinct (keysAt (generateSpecs conv routes) [''paths'', p, m])"
proof -
  let ?paths = "fold (registerRoute conv) routes []"
  note u = uniquePaths_generated [of conv routes]
  show "distinct (keysAt (generateSpecs conv routes) [''paths''])"
    using u by (simp add: keysAt_def generateSpecs_def field_def uniquePaths_def)
  have below: "uniqueBelow (JObject methods)" if "map_of ?paths p = Some (JObject methods)" for methods
    using u that by (rule uniquePaths_item)
  show "distinct (keysAt (generateSpecs conv routes) [''paths'', p])"
  proof (cases "map_of ?paths p")
    case None
    then show ?thesis
      unfolding keysAt_def at_generateSpecs by (simp add: field_def)
  next
    case (Some v)
    show ?thesis
    proof (cases v)
      case (JObject methods)
      with Some below have "distinct (map fst methods)"
        by (simp add: uniqueBelow_def)
      with Some JObject show ?thesis
        unfolding keysAt_def at_generateSpecs by (simp add: field_def)
    qed (use Some in \<open>simp_all add: keysAt_def at_generateSpecs [of _ _ "[p]"] field_def
           del: at.simps\<close>, simp_all add: field_def)
  qed
  show "distinct (keysAt (generateSpecs conv routes) [''paths'', p, m])"
  proof (cases "at (JObject ?paths) [p, m]")
    case None
    then show ?thesis
      unfolding keysAt_def at_generateSpecs by simp
  next
    case (Some opn)
    show ?thesis
    proof (cases opn)
      case (JObject props)
      from Some obtain v where v: "map_of ?paths p = Some v" "field m v = Some opn"
        by (auto simp: field_def split: option.splits)
      then obtain methods where "v = JObject methods" "map_of methods m = Some (JObject props)"
        using JObject by (cases v) (simp_all add: field_def)
      with v(1) below have "distinct (map fst props)"
        by (auto intro: uniqueBelow_operation)
      with Some JObject show ?thesis
        unfolding keysAt_def at_generateSpecs by simp
    qed (use Some in \<open>simp_all add: keysAt_def at_generateSpecs [of _ _ "[p, m]"]
           del: at.simps\<close>)
  qed
qed

text \<open>
  C5: when several dictionaries are merged for one path and method, the aggregate holds
  under a key the value of the dictionary merged last among those that have the key; and
  the keys of the paths object, of every path item and of every operation are unique.
\<close>

theorem last_write_wins:
  assumes "map_of (metadata r) k = Some v"
      and "\<forall>r' \<in> set after. routeKey r' = routeKey r \<longrightarrow> map_of (metadata r') k = None"
  shows "at (generateSpecs conv (before @ r # after))
            [''paths'', path r, toLowerCase (httpMethod r), k] = Some (emitField conv k v)
       \<and> distinct (keysAt (generateSpecs conv (before @ r # after)) [''paths''])
       \<and> distinct (keysAt (generateSpecs conv (before @ r # after)) [''paths'', p])
       \<and> distinct (keysAt (generateSpecs conv (before @ r # after)) [''paths'', p, m])"
  using field_of_last_writer [OF assms, of conv before] unique_keys [of conv "before @ r # after"]
  by blast

theorem last_write_wins_witness:
  "at (generateSpecs (\<lambda>s. s) [firstRoute, secondRoute])
      [''paths'', ''/'', ''get'', ''description''] = Some (JString ''Second'')
   \<and> distinct (keysAt (generateSpecs (\<lambda>s. s) [firstRoute, secondRoute]) [''paths''])
   \<and> distinct (keysAt (generateSpecs (\<lambda>s. s) [firstRoute, secondRoute]) [''paths'', ''/''])
   \<and> distinct (keysAt (generateSpecs (\<lambda>s. s) [firstRoute, secondRoute]) [''paths'', ''/'', ''get''])"
proof -
  have 1: "map_of (metadata secondRoute) ''description'' = Some (MString ''Second'')"
    by (simp add: secondRoute_def)
  have 2: "\<forall>r' \<in> set []. routeKey r' = routeKey secondRoute
             \<longrightarrow> map_of (metadata r') ''description'' = None"
    by simp
  have emitted: "emitField (\<lambda>s. s) ''description'' (MString ''Second'') = JString ''Second''"
    by (simp add: emitField_def)
  have key: "path secondRoute = ''/''" "toLowerCase (httpMethod secondRoute) = ''get''"
    using sample_keys(3) by (simp_all add: routeKey_def)
  show ?thesis
    using last_write_wins [OF 1 2, of "\<lambda>s. s" "[firstRoute]" "''/''" "''get''"]
    by (simp only: emitted key append_Cons append_Nil)
qed

section \<open>Bundled dependencies\<close>

lemma externals_set:
  "set (externals cfg rootPkg) =
     (set (rootDependencyNames rootPkg) \<union> set (rootPeerDependencyNames rootPkg))
       - set (bundledDependencies cfg)"
proof (cases rootPkg)
  case None
  then show ?thesis
    by (simp add: externals_def rootDependencyNames_def rootPeerDependencyNames_def)
next
  case (Some pkg)
  then show ?thesis
    by (cases "dependencies pkg"; cases "peerDependencies pkg")
       (auto simp: externals_def rootDependencyNames_def rootPeerDependencyNames_def)
qed

lemma packageDeps_fold_keys:
  "fst ` set (fold (\<lambda>(dep, ver) deps. if dep \<notin> B then assign deps dep ver else deps) d acc)
     = fst ` set acc \<union> {dep \<in> fst ` set d. dep \<notin> B \<and> dep \<noteq> ''__proto__''}"
proof (induction d arbitrary: acc)
  case Nil
  then show ?case by simp
next
  case (Cons x d)
  obtain dep ver where x: "x = (dep, ver)" by (cases x)
  have "fst ` set (fold (\<lambda>(dep, ver) deps. if dep \<notin> B then assign deps dep ver else deps)
            (x # d) acc)
        = fst ` set (if dep \<notin> B then assign acc dep ver else acc)
            \<union> {dep \<in> fst ` set d. dep \<notin> B \<and> dep \<noteq> ''__proto__''}"
    by (simp add: x Cons.IH)
  also have "\<dots> = fst ` set acc \<union> {dep \<in> fst ` set (x # d). dep \<notin> B \<and> dep \<noteq> ''__proto__''}"
    by (auto simp: x assign_def dom_update)
  finally show ?case .
qed

lemma packageDeps_None: "packageDeps cfg None = []"
  by (simp add: packageDeps_def)

lemma packageDeps_no_dependencies: "dependencies pkg = None \<Longrightarrow> packageDeps cfg (Some pkg) = []"
  by (simp add: packageDeps_def)

lemma packageDeps_Some:
  assumes "includeDependencies cfg" and "dependencies pkg = Some d"
  shows "packageDeps cfg (Some pkg) =
           fold (\<lambda>(dep, ver) deps.
                   if dep \<notin> set (bundledDependencies cfg) then assign deps dep ver else deps) d []"
  using assms by (simp add: packageDeps_def)

lemma rootDependencyNames_simps:
  "rootDependencyNames None = []"
  "dependencies pkg = None \<Longrightarrow> rootDependencyNames (Some pkg) = []"
  "dependencies pkg = Some d \<Longrightarrow> rootDependencyNames (Some pkg) = map fst d"
  by (simp_all add: rootDependencyNames_def)

lemma packageDeps_keys:
  assumes "includeDependencies cfg"
  shows "set (map fst (packageDeps cfg rootPkg)) =
           {dep \<in> set (rootDependencyNames rootPkg).
              dep \<notin> set (bundledDependencies cfg) \<and> dep \<noteq> ''__proto__''}"
proof (cases rootPkg)
  case None
  show ?thesis
    unfolding None packageDeps_None rootDependencyNames_simps by simp
next
  case root: (Some pkg)
  show ?thesis
  proof (cases "dependencies pkg")
    case None
    show ?thesis
      unfolding root packageDeps_no_dependencies [OF None] rootDependencyNames_simps(2) [OF None]
      by simp
  next
    case (Some d)
    show ?thesis
      unfolding root packageDeps_Some [OF assms Some] rootDependencyNames_simps(3) [OF Some]
        set_map packageDeps_fold_keys
      by simp
  qed
qed

lemma bundled_excluded:
  assumes "includeDependencies cfg" and "dep \<in> set (bundledDependencies cfg)"
  shows "dep \<notin> set (externals cfg rootPkg) \<and> dep \<notin> set (map fst (packageDeps cfg rootPkg))"
  unfolding externals_set packageDeps_keys [OF assms(1)] using assms(2) by simp

lemma others_included:
  assumes "includeDependencies cfg" and "dep \<notin> set (bundledDependencies cfg)"
      and "dep \<noteq> ''__proto__''"
  shows "(dep \<in> set (rootDependencyNames rootPkg) \<or> dep \<in> set (rootPeerDependencyNames rootPkg)
            \<longleftrightarrow> dep \<in> set (externals cfg rootPkg))
       \<and> (dep \<in> set (rootDependencyNames rootPkg)
            \<longleftrightarrow> dep \<in> set (map fst (packageDeps cfg rootPkg)))"
  unfolding externals_set packageDeps_keys [OF assms(1)] using assms(2,3) by simp

lemma removeUndefined_append:
  "removeUndefined (xs @ ys) = removeUndefined xs @ removeUndefined ys"
  by (simp add: removeUndefined_def List.map_filter_def)

lemma removeUndefined_Cons:
  "removeUndefined ((k, v) # xs) = (case v of None \<Rightarrow> removeUndefined xs | Some j \<Rightarrow> (k, j) # removeUndefined xs)"
  by (simp add: removeUndefined_def List.map_filter_def split: option.splits)

lemma removeUndefined_Nil: "removeUndefined [] = []"
  by (simp add: removeUndefined_def List.map_filter_def)

lemma map_of_spread:
  "map_of (removeUndefined (spread guard key v)) k = (if guard \<and> k = key then Some v else None)"
  by (simp add: spread_def removeUndefined_Cons removeUndefined_Nil)

lemma map_of_spread_opt:
  "map_of (removeUndefined (spread_opt v key)) k =
     (case v of None \<Rightarrow> None | Some j \<Rightarrow> if truthy j \<and> k = key then Some j else None)"
  by (simp add: spread_opt_def map_of_spread removeUndefined_Nil split: option.splits)

lemma dependencies_field:
  "field ''dependencies'' (JObject (packageJson cfg targets hasReadme rootPkg)) =
     (if packageDeps cfg rootPkg = [] then None
      else Some (stringObject (packageDeps cfg rootPkg)))"
proof -
  have "map_of (packageJson cfg targets hasReadme rootPkg) ''dependencies'' =
          (if packageDeps cfg rootPkg = [] then None
           else Some (stringObject (packageDeps cfg rootPkg)))"
    unfolding packageJson_def Let_def removeUndefined_append map_of_append map_add_def
      map_of_spread map_of_spread_opt
    by (simp add: removeUndefined_Cons removeUndefined_Nil split: option.splits)
  then show ?thesis
    by (simp add: field_def)
qed

lemma protoPackage_deps:
  "packageDeps (configure CONFIG (Some protoPackage)) (Some protoPackage) = [(''hono'', ''4.0.0'')]"
proof -
  have "includeDependencies (configure CONFIG (Some protoPackage))"
       "bundledDependencies (configure CONFIG (Some protoPackage)) = []"
    by (simp_all add: configure_fixed CONFIG_def)
  moreover have "dependencies protoPackage = Some [(''__proto__'', ''1.0.0''), (''hono'', ''4.0.0'')]"
    by (simp add: protoPackage_def)
  ultimately show ?thesis
    by (simp add: packageDeps_def assign_def)
qed

text \<open>
  C10, at a root package.json whose dependencies are \<^verbatim>\<open>__proto__\<close> and
  \<^verbatim>\<open>hono\<close>, neither of them bundled: both are handed to the bundler as external,
  but the dependencies of the generated package.json hold \<^verbatim>\<open>hono\<close> only.
\<close>

theorem proto_dependency_dropped:
  "externals (configure CONFIG (Some protoPackage)) (Some protoPackage) = [''__proto__'', ''hono'']
   \<and> field ''dependencies''
        (JObject (packageJson (configure CONFIG (Some protoPackage))
                    [buildTarget CONFIG ''index.ts''] True (Some protoPackage)))
     = Some (JObject [(''hono'', JString ''4.0.0'')])"
proof -
  have "bundledDependencies (configure CONFIG (Some protoPackage)) = []"
    by (simp add: configure_fixed CONFIG_def)
  moreover have "dependencies protoPackage = Some [(''__proto__'', ''1.0.0''), (''hono'', ''4.0.0'')]"
    "peerDependencies protoPackage = None"
    by (simp_all add: protoPackage_def)
  ultimately have "externals (configure CONFIG (Some protoPackage)) (Some protoPackage)
      = [''__proto__'', ''hono'']"
    by (simp add: externals_def)
  then show ?thesis
    by (simp add: dependencies_field protoPackage_deps stringObject_def)
qed

end
